theory Spec2Isabelle
  imports Complex_Main "HOL-Library.Word"
begin

section \<open>Just-Dance: video processing pipeline (process\_video.py, utils.py)\<close>

text \<open>
  Numbers that the Python code holds in floating point (pixel intensities, keypoint
  coordinates, confidences, similarity values, frame rates) are modelled as exact
  rationals; rounding, NaN and infinities are outside the model.  Arrays are nested
  lists, and a \<open>uint8\<close> is an \<open>8 word\<close>.
\<close>

subsection \<open>Python helpers\<close>

definition py_int :: "rat \<Rightarrow> int" where
  \<comment> \<open>\<open>int(x)\<close> and the C cast behind \<open>astype\<close>: truncation towards zero.\<close>
  "py_int x = (if 0 \<le> x then \<lfloor>x\<rfloor> else \<lceil>x\<rceil>)"

subsection \<open>utils.blend\_images\<close>








subsection \<open>VideoProcessor.pose\_estimator\<close>

record video_processor =
  pose_estimator_attr :: "nat option"
  visualizer_attr :: "nat option"

text \<open>
  An object is identified by the number it got when it was constructed; the second
  component of the state counts the \<open>Pose2DInferencer\<close> objects constructed so far.
\<close>

definition pose_estimator :: "video_processor \<times> nat \<Rightarrow> (video_processor \<times> nat) \<times> nat" where
  "pose_estimator s =
     (case pose_estimator_attr (fst s) of
        None \<Rightarrow> (((fst s)\<lparr>pose_estimator_attr := Some (snd s)\<rparr>, Suc (snd s)), snd s)
      | Some p \<Rightarrow> (s, p))"

fun pose_estimator_times :: "nat \<Rightarrow> video_processor \<times> nat \<Rightarrow> (video_processor \<times> nat) \<times> nat list" where
  "pose_estimator_times 0 s = (s, [])"
| "pose_estimator_times (Suc k) s =
     (let (s1, p) = pose_estimator s; (s2, ps) = pose_estimator_times k s1 in (s2, p # ps))"

subsection \<open>Errors, arrays, videos and files\<close>

datatype error =
    StopIteration        \<comment> \<open>\<open>next\<close> on an exhausted video reader\<close>
  | IndexError
  | ValueError           \<comment> \<open>numpy: nothing to concatenate, or shapes that do not fit\<close>
  | AssertionError
  | FileNotFound         \<comment> \<open>\<open>mmcv.VideoReader\<close> on a path that holds no video\<close>
  | LoadError            \<comment> \<open>\<open>torch.load\<close> on a file that holds no saved array\<close>
  | TypeError
  | IndexOutOfRange
  | EmptySequence
  | NoFeasibleAlignment

definition ebind :: "error + 'a \<Rightarrow> ('a \<Rightarrow> error + 'b) \<Rightarrow> error + 'b" where
  \<comment> \<open>sequencing: a raised exception skips the rest\<close>
  "ebind r f = (case r of Inl e \<Rightarrow> Inl e | Inr x \<Rightarrow> f x)"

type_synonym kpt_frame = "rat list list"
  \<comment> \<open>shape (17, 3): x, y and confidence of every joint\<close>

type_synonym kpt_seq = "kpt_frame list"
  \<comment> \<open>shape (N, 17, 3)\<close>

definition has_shape2 :: "nat \<Rightarrow> nat \<Rightarrow> 'a list list \<Rightarrow> bool" where
  "has_shape2 a b arr = (length arr = a \<and> list_all (\<lambda>row. length row = b) arr)"

definition has_shape3 :: "nat \<Rightarrow> nat \<Rightarrow> nat \<Rightarrow> 'a list list list \<Rightarrow> bool" where
  "has_shape3 a b c arr = (length arr = a \<and> list_all (has_shape2 b c) arr)"

definition zeros :: "nat \<Rightarrow> nat \<Rightarrow> nat \<Rightarrow> kpt_seq" where
  "zeros a b c = replicate a (replicate b (replicate c 0))"

record 'img video =
  fps :: rat
  frames :: "'img list"

record 'img video_reader =
  source :: "'img video"
  position :: nat

definition next_frame :: "'img video_reader \<Rightarrow> error + ('img video_reader \<times> 'img)" where
  \<comment> \<open>\<open>next(video_reader)\<close>\<close>
  "next_frame r =
     (if position r < length (frames (source r))
      then Inr (r\<lparr>position := Suc (position r)\<rparr>, frames (source r) ! position r)
      else Inl StopIteration)"

fun skip_frames :: "nat \<Rightarrow> 'img video_reader \<Rightarrow> error + 'img video_reader" where
  \<comment> \<open>\<open>for _ in range(n): _ = next(video_reader)\<close>\<close>
  "skip_frames 0 r = Inr r"
| "skip_frames (Suc n) r = ebind (next_frame r) (\<lambda>(r', _). skip_frames n r')"

datatype ndarray = Seq kpt_seq | Frame kpt_frame
  \<comment> \<open>a numpy array of keypoints: a whole sequence, or one frame of it\<close>

record 'img rendered =
  \<comment> \<open>what one frame of the output video is composed from\<close>
  out_stu_frame :: 'img
  out_tch_frame :: 'img
  out_stu_inst :: ndarray
  out_tch_inst :: ndarray
  out_score_text :: int
  out_font_size :: rat

datatype 'img file_content =
    VideoFile "'img video"
  | KptsFile kpt_seq
  | OutputFile "'img rendered list"

record piece_info =
  \<comment> \<open>the dict returned by \<open>select_piece_from_similarity\<close>\<close>
  tch_start :: nat
  stu_start :: nat
  length_piece :: nat
  similarity :: "rat list"

datatype event =
    OpenVideo string
  | ConvertFps string
  | ExtractFrame
  | CalcSimilarity kpt_seq kpt_seq
  | SelectPiece piece_info
  | Smooth nat nat
  \<comment> \<open>the calls of the collaborators, in the order they are made\<close>

record 'img world =
  files :: "string \<rightharpoonup> 'img file_content"
  trace :: "event list"

definition VideoReader :: "'img world \<Rightarrow> string \<Rightarrow> error + ('img world \<times> 'img video_reader)" where
  "VideoReader w path =
     (case files w path of
        Some (VideoFile v) \<Rightarrow>
          Inr (w\<lparr>trace := trace w @ [OpenVideo path]\<rparr>, \<lparr>source = v, position = 0\<rparr>)
      | _ \<Rightarrow> Inl FileNotFound)"

definition rsplit_dot :: "string \<Rightarrow> string" where
  \<comment> \<open>\<open>s.rsplit('.', 1)[0]\<close>\<close>
  "rsplit_dot s =
     (if CHR ''.'' \<in> set s then rev (tl (dropWhile (\<lambda>c. c \<noteq> CHR ''.'') (rev s))) else s)"

definition basename :: "string \<Rightarrow> string" where
  "basename s = rev (takeWhile (\<lambda>c. c \<noteq> CHR ''/'') (rev s))"

definition kpts_path :: "string \<Rightarrow> string" where
  \<comment> \<open>\<open>f'{video_fname}_kpts.pth'\<close>\<close>
  "kpts_path video = rsplit_dot video @ ''_kpts.pth''"

subsection \<open>VideoProcessor.get\_keypoints\_from\_frame\<close>

record detection =
  bbox :: "rat list"
  bbox_score :: rat

record pose_prediction =
  keypoints :: "rat list list list"
  keypoint_scores :: "rat list list"

definition concatenate_scores :: "rat list list list \<Rightarrow> rat list list \<Rightarrow> error + kpt_seq" where
  \<comment> \<open>\<open>np.concatenate((keypoints, keypoint_scores[..., None]), axis=-1)\<close>\<close>
  "concatenate_scores kps scs =
     (if map length kps = map length scs
      then Inr (map2 (\<lambda>ks ss. map2 (\<lambda>k s. k @ [s]) ks ss) kps scs)
      else Inl ValueError)"

text \<open>
  The detector and the pose model (preprocessing, backbone and head) are collaborators:
  \<open>detector\<close> gives the detected instances of an image, most prominent first, and
  \<open>predict\<close> the pose model's prediction for an image and one bounding box.
\<close>

definition get_keypoints_from_frame ::
  "('img \<Rightarrow> detection list) \<Rightarrow> ('img \<Rightarrow> detection \<Rightarrow> pose_prediction) \<Rightarrow> 'img \<Rightarrow> error + kpt_seq" where
  "get_keypoints_from_frame detector predict img =
     (let pred_instance = detector img
      in if length pred_instance = 0 then Inr (zeros 1 17 3)
         else
           let data_info = hd pred_instance
           in if bbox_score data_info < 2 / 10 then Inr (zeros 1 17 3)
              else
                let pred_instances = predict img data_info
                in concatenate_scores (keypoints pred_instances) (keypoint_scores pred_instances))"

subsection \<open>VideoProcessor.get\_keypoints\_from\_video\<close>

fun keypoints_list :: "('img \<Rightarrow> error + kpt_seq) \<Rightarrow> 'img list \<Rightarrow> error + kpt_seq list" where
  \<comment> \<open>the loop over the frames of the reader\<close>
  "keypoints_list frame_kpts [] = Inr []"
| "keypoints_list frame_kpts (frame # rest) =
     ebind (frame_kpts frame) (\<lambda>k. ebind (keypoints_list frame_kpts rest) (\<lambda>ks. Inr (k # ks)))"

definition np_concatenate :: "kpt_seq list \<Rightarrow> error + kpt_seq" where
  \<comment> \<open>\<open>np.concatenate\<close> along the first axis, of arrays of shape (1, 17, 3)\<close>
  "np_concatenate arrs = (if arrs = [] then Inl ValueError else Inr (concat arrs))"

definition extract_keypoints :: "('img \<Rightarrow> error + kpt_seq) \<Rightarrow> 'img video_reader \<Rightarrow> error + kpt_seq" where
  "extract_keypoints frame_kpts video_reader =
     ebind (keypoints_list frame_kpts (frames (source video_reader))) np_concatenate"

text \<open>
  \<open>convert_video_fps\<close> is a collaborator: it may change the files and gives the path of
  the converted video.  \<open>frame_kpts\<close> stands for \<open>self.get_keypoints_from_frame\<close>.
\<close>

definition get_keypoints_from_video ::
  "('img \<Rightarrow> error + kpt_seq) \<Rightarrow>
   ((string \<rightharpoonup> 'img file_content) \<Rightarrow> string \<Rightarrow> (string \<rightharpoonup> 'img file_content) \<times> string) \<Rightarrow>
   'img world \<Rightarrow> string \<Rightarrow> error + ('img world \<times> kpt_seq)" where
  "get_keypoints_from_video frame_kpts convert_video_fps w video =
     (case files w (kpts_path video) of
        Some f \<Rightarrow> (case f of KptsFile kpts \<Rightarrow> Inr (w, kpts) | _ \<Rightarrow> Inl LoadError)
      | None \<Rightarrow>
          ebind (VideoReader w video) (\<lambda>(w1, video_reader).
          ebind (if fps (source video_reader) \<noteq> 30
                 then (let (files2, converted) = convert_video_fps (files w1) video
                       in VideoReader (w1\<lparr>files := files2, trace := trace w1 @ [ConvertFps video]\<rparr>)
                            converted)
                 else Inr (w1, video_reader)) (\<lambda>(w3, video_reader).
          if fps (source video_reader) \<noteq> 30 then Inl AssertionError
          else
            ebind (extract_keypoints frame_kpts video_reader) (\<lambda>kpts.
            Inr (w3\<lparr>files := (files w3)(kpts_path video \<mapsto> KptsFile kpts),
                     trace := trace w3 @ replicate (length (frames (source video_reader))) ExtractFrame\<rparr>,
                 kpts)))))"

subsection \<open>utils.get\_smoothed\_kpt\<close>

text \<open>
  Arrays live in an object store, a list addressed by position, so that it is visible
  which array an in-place update writes to.
\<close>

text \<open>
  Modelled from the spec: \<open>get_smoothed_kpt\<close> is imported from utils.py, but its body is
  missing from the utils.py at hand.  The spec's Temporal Keypoint Smoother is pure and
  stateless, never mutates the caller's sequence, rejects an index outside the sequence,
  and gives a frame-shaped value computed on demand from a window of raw frames: here a
  new array.  The weighted average itself is the parameter \<open>smooth\<close>.
\<close>

definition get_smoothed_kpt ::
  "(kpt_seq \<Rightarrow> nat \<Rightarrow> nat \<Rightarrow> kpt_frame) \<Rightarrow> ndarray list \<Rightarrow> nat \<Rightarrow> nat \<Rightarrow> nat \<Rightarrow>
   error + (ndarray list \<times> nat)" where
  \<comment> \<open>Modelled from the spec: the smoothed frame is a new array, the sequence is left alone\<close>
  "get_smoothed_kpt smooth objs kpts index window =
     (if kpts < length objs then
        (case objs ! kpts of
           Seq raw \<Rightarrow>
             if index < length raw
             then Inr (objs @ [Frame (smooth raw index window)], length objs)
             else Inl IndexOutOfRange
         | Frame _ \<Rightarrow> Inl TypeError)
      else Inl TypeError)"

subsection \<open>VideoProcessor.generate\_output\_video\<close>

definition rows_of :: "ndarray \<Rightarrow> rat list list" where
  "rows_of arr = (case arr of Seq s \<Rightarrow> concat s | Frame f \<Rightarrow> f)"

definition map_rows :: "(rat list \<Rightarrow> rat list) \<Rightarrow> ndarray \<Rightarrow> ndarray" where
  "map_rows g arr = (case arr of Seq s \<Rightarrow> Seq (map (map g) s) | Frame f \<Rightarrow> Frame (map g f))"

definition iadd_last_axis :: "ndarray list \<Rightarrow> nat \<Rightarrow> nat \<Rightarrow> rat \<Rightarrow> error + ndarray list" where
  \<comment> \<open>\<open>a[..., k] += c\<close>, in place, on the array at address \<open>a\<close>\<close>
  "iadd_last_axis objs a k c =
     (if a < length objs then
        (if list_all (\<lambda>row. k < length row) (rows_of (objs ! a))
         then Inr (objs[a := map_rows (\<lambda>row. row[k := row ! k + c]) (objs ! a)])
         else Inl IndexError)
      else Inl TypeError)"

definition InstanceData :: "ndarray list \<Rightarrow> nat \<Rightarrow> error + ndarray" where
  \<comment> \<open>reads \<open>a[None, :, :2]\<close> and \<open>a[None, :, 2]\<close>\<close>
  "InstanceData objs a =
     (if a < length objs then
        (if list_all (\<lambda>row. 2 < length row) (rows_of (objs ! a))
         then Inr (objs ! a) else Inl IndexError)
      else Inl TypeError)"

definition getitem :: "'a list \<Rightarrow> nat \<Rightarrow> error + 'a" where
  "getitem xs i = (if i < length xs then Inr (xs ! i) else Inl IndexError)"

record 'img locals =
  \<comment> \<open>the local variables of \<open>generate_output_video\<close>, the object store and the calls made\<close>
  objects :: "ndarray list"
  tch_video_reader :: "'img video_reader"
  stu_video_reader :: "'img video_reader"
  score :: rat
  last_vis_score :: rat
  video_writer :: "'img rendered list option"
  calls :: "event list"

definition written :: "'img locals \<Rightarrow> 'img rendered list" where
  \<comment> \<open>the frames written so far; the writer is made when the first frame is written\<close>
  "written st = (case video_writer st of None \<Rightarrow> [] | Some fs \<Rightarrow> fs)"

definition render_frame ::
  "(ndarray list \<Rightarrow> nat \<Rightarrow> nat \<Rightarrow> nat \<Rightarrow> error + (ndarray list \<times> nat)) \<Rightarrow> nat \<Rightarrow> nat \<Rightarrow>
   piece_info \<Rightarrow> 'img locals \<Rightarrow> nat \<Rightarrow> error + 'img locals" where
  \<comment> \<open>one pass of the loop \<open>for i in range(piece_info['length'])\<close>\<close>
  "render_frame smoothed tch_kpts stu_kpts info st i =
     ebind (next_frame (tch_video_reader st)) (\<lambda>(tch_reader, tch_frame).
     ebind (next_frame (stu_video_reader st)) (\<lambda>(stu_reader, stu_frame).
     ebind (smoothed (objects st) stu_kpts (stu_start info + i) 5) (\<lambda>(o1, stu_kpt).
     ebind (smoothed o1 tch_kpts (tch_start info + i) 5) (\<lambda>(o2, tch_kpt).
     ebind (iadd_last_axis o2 stu_kpt 1 (300 - 256)) (\<lambda>o3.
     ebind (iadd_last_axis o3 tch_kpt 0 (256 - 192)) (\<lambda>o4.
     ebind (iadd_last_axis o4 tch_kpt 1 (300 - 256)) (\<lambda>o5.
     ebind (InstanceData o5 stu_kpt) (\<lambda>stu_inst.
     ebind (InstanceData o5 tch_kpt) (\<lambda>tch_inst.
     ebind (getitem (similarity info) i) (\<lambda>score_frame.
       let score1 = score st + score_frame * 1000;
           last1 = (if score1 - last_vis_score st > 1500 then score1 else last_vis_score st);
           out = \<lparr>out_stu_frame = stu_frame, out_tch_frame = tch_frame,
                  out_stu_inst = stu_inst, out_tch_inst = tch_inst,
                  out_score_text = py_int last1,
                  out_font_size = 30 * max (4 / 10) score_frame\<rparr>
       in Inr \<lparr>objects = o5, tch_video_reader = tch_reader, stu_video_reader = stu_reader,
               score = score1, last_vis_score = last1,
               video_writer = Some (written st @ [out]),
               calls = calls st @ [Smooth stu_kpts (stu_start info + i),
                                   Smooth tch_kpts (tch_start info + i)]\<rparr>))))))))))"

fun render_loop ::
  "(ndarray list \<Rightarrow> nat \<Rightarrow> nat \<Rightarrow> nat \<Rightarrow> error + (ndarray list \<times> nat)) \<Rightarrow> nat \<Rightarrow> nat \<Rightarrow>
   piece_info \<Rightarrow> nat list \<Rightarrow> 'img locals \<Rightarrow> error + 'img locals" where
  "render_loop smoothed tch_kpts stu_kpts info [] st = Inr st"
| "render_loop smoothed tch_kpts stu_kpts info (i # rest) st =
     ebind (render_frame smoothed tch_kpts stu_kpts info st i)
       (render_loop smoothed tch_kpts stu_kpts info rest)"

definition generate_output_video_locals ::
  "(ndarray list \<Rightarrow> nat \<Rightarrow> nat \<Rightarrow> nat \<Rightarrow> error + (ndarray list \<times> nat)) \<Rightarrow> 'img world \<Rightarrow>
   string \<Rightarrow> string \<Rightarrow> ndarray list \<Rightarrow> nat \<Rightarrow> nat \<Rightarrow> piece_info \<Rightarrow>
   error + ('img world \<times> 'img locals)" where
  \<comment> \<open>the body of \<open>generate_output_video\<close> up to its last loop: the locals at that point\<close>
  "generate_output_video_locals smoothed w tch_video stu_video objs tch_kpts stu_kpts info =
     ebind (VideoReader w tch_video) (\<lambda>(w1, tch_reader).
     ebind (VideoReader w1 stu_video) (\<lambda>(w2, stu_reader).
     ebind (skip_frames (tch_start info) tch_reader) (\<lambda>tch_reader1.
     ebind (skip_frames (stu_start info) stu_reader) (\<lambda>stu_reader1.
     ebind (render_loop smoothed tch_kpts stu_kpts info [0..<length_piece info]
              \<lparr>objects = objs, tch_video_reader = tch_reader1, stu_video_reader = stu_reader1,
               score = 0, last_vis_score = 0, video_writer = None, calls = []\<rparr>)
       (\<lambda>st. Inr (w2, st))))))"

definition generate_output_video ::
  "(ndarray list \<Rightarrow> nat \<Rightarrow> nat \<Rightarrow> nat \<Rightarrow> error + (ndarray list \<times> nat)) \<Rightarrow> 'img world \<Rightarrow>
   string \<Rightarrow> string \<Rightarrow> string \<Rightarrow> ndarray list \<Rightarrow> nat \<Rightarrow> nat \<Rightarrow> piece_info \<Rightarrow>
   error + ('img world \<times> ndarray list \<times> string)" where
  \<comment> \<open>gives the files and calls afterwards, the object store afterwards, and the returned path\<close>
  "generate_output_video smoothed w tch_video stu_video output_file objs tch_kpts stu_kpts info =
     ebind (generate_output_video_locals smoothed w tch_video stu_video objs tch_kpts stu_kpts info)
       (\<lambda>(w2, st).
          Inr (w2\<lparr>files := (case video_writer st of
                               None \<Rightarrow> files w2
                             | Some fs \<Rightarrow> (files w2)(output_file \<mapsto> OutputFile fs)),
                   trace := trace w2 @ calls st\<rparr>,
               objects st, output_file))"

subsection \<open>VideoProcessor.run\<close>

text \<open>
  \<open>calculate_similarity\<close> and \<open>select_piece_from_similarity\<close> are collaborators here, and
  so is the smoother; \<open>tmpdir\<close> is the directory that \<open>tempfile.mkdtemp()\<close> made.
\<close>

definition run ::
  "('img \<Rightarrow> error + kpt_seq) \<Rightarrow>
   ((string \<rightharpoonup> 'img file_content) \<Rightarrow> string \<Rightarrow> (string \<rightharpoonup> 'img file_content) \<times> string) \<Rightarrow>
   (kpt_seq \<Rightarrow> kpt_seq \<Rightarrow> error + 'm) \<Rightarrow> ('m \<Rightarrow> error + piece_info) \<Rightarrow>
   (ndarray list \<Rightarrow> nat \<Rightarrow> nat \<Rightarrow> nat \<Rightarrow> error + (ndarray list \<times> nat)) \<Rightarrow>
   string \<Rightarrow> 'img world \<Rightarrow> string \<Rightarrow> string \<Rightarrow> error + ('img world \<times> ndarray list \<times> string)" where
  "run frame_kpts convert_video_fps calculate_similarity select_piece smoothed tmpdir w tch_video stu_video =
     ebind (get_keypoints_from_video frame_kpts convert_video_fps w tch_video) (\<lambda>(w1, tch_kpts).
     ebind (get_keypoints_from_video frame_kpts convert_video_fps w1 stu_video) (\<lambda>(w2, stu_kpts).
     ebind (calculate_similarity tch_kpts stu_kpts) (\<lambda>similirity.
     ebind (select_piece similirity) (\<lambda>info.
       let w3 = w2\<lparr>trace := trace w2 @ [CalcSimilarity tch_kpts stu_kpts, SelectPiece info]\<rparr>;
           tch_name = rsplit_dot (basename tch_video);
           stu_name = rsplit_dot (basename stu_video);
           fname = tch_name @ ''-'' @ stu_name @ ''.mp4'';
           output_file = tmpdir @ ''/'' @ fname
       in generate_output_video smoothed w3 tch_video stu_video output_file
            [Seq tch_kpts, Seq stu_kpts] 0 1 info))))"

subsection \<open>The alignment selector\<close>









section \<open>Properties\<close>

subsection \<open>The lazily constructed pose estimator\<close>

lemma pose_estimator_again:
  "pose_estimator (fst (pose_estimator s)) = (fst (pose_estimator s), snd (pose_estimator s))"
  by (cases s) (simp add: pose_estimator_def split: option.splits)

lemma pose_estimator_times_cached:
  "pose_estimator_attr (fst s) = Some p \<Longrightarrow> pose_estimator_times k s = (s, replicate k p)"
  by (induction k) (simp_all add: pose_estimator_def)

lemma pose_estimator_sets_attr:
  "pose_estimator_attr (fst (fst (pose_estimator s))) = Some (snd (pose_estimator s))"
  by (cases s) (simp add: pose_estimator_def split: option.splits)

text \<open>
  C8: the \<open>pose_estimator\<close> property constructs the inferencer at most once.  When the
  attribute is not set, the access constructs a new inferencer, stores it in the
  attribute and returns it; when it is set, the access returns the stored inferencer and
  changes nothing.  So after any access the attribute holds the returned inferencer, any
  number of accesses, one or more, leaves the object as the first access left it and
  gives the same inferencer every time, and the count of constructed inferencers grows
  by at most one.
\<close>

theorem pose_estimator_once:
  "pose_estimator_times (Suc k) s
     = (fst (pose_estimator s), replicate (Suc k) (snd (pose_estimator s)))
   \<and> snd (fst (pose_estimator s)) \<le> Suc (snd s)
   \<and> snd (fst (pose_estimator_times (Suc k) s)) = snd (fst (pose_estimator s))
   \<and> pose_estimator_attr (fst (fst (pose_estimator s))) = Some (snd (pose_estimator s))
   \<and> (pose_estimator_attr (fst s) = None \<longrightarrow>
         snd (pose_estimator s) = snd s
       \<and> snd (fst (pose_estimator s)) = Suc (snd s)
       \<and> fst (fst (pose_estimator s)) = (fst s)\<lparr>pose_estimator_attr := Some (snd s)\<rparr>)
   \<and> (\<forall>p. pose_estimator_attr (fst s) = Some p \<longrightarrow> pose_estimator s = (s, p))"
proof -
  obtain s1 p where sp: "pose_estimator s = (s1, p)" by (cases "pose_estimator s")
  have c: "pose_estimator_attr (fst s1) = Some p"
    using pose_estimator_sets_attr [of s] sp by simp
  then have "pose_estimator_times k s1 = (s1, replicate k p)"
    by (rule pose_estimator_times_cached)
  then have a: "pose_estimator_times (Suc k) s = (s1, replicate (Suc k) p)"
    using sp by simp
  have b: "snd s1 \<le> Suc (snd s)"
    using sp by (cases s) (auto simp: pose_estimator_def split: option.splits)
  have first: "pose_estimator_attr (fst s) = None \<longrightarrow>
         p = snd s \<and> snd s1 = Suc (snd s)
       \<and> fst s1 = (fst s)\<lparr>pose_estimator_attr := Some (snd s)\<rparr>"
    using sp by (auto simp: pose_estimator_def)
  have later: "\<forall>q. pose_estimator_attr (fst s) = Some q \<longrightarrow> pose_estimator s = (s, q)"
    by (simp add: pose_estimator_def)
  show ?thesis using a b c first later sp by simp
qed

theorem pose_estimator_once_witness:
  "pose_estimator_attr (fst (\<lparr>pose_estimator_attr = None, visualizer_attr = None\<rparr>, 0 :: nat)) = None
   \<and> pose_estimator_times 3 (\<lparr>pose_estimator_attr = None, visualizer_attr = None\<rparr>, 0)
     = ((\<lparr>pose_estimator_attr = Some 0, visualizer_attr = None\<rparr>, 1), [0, 0, 0])
   \<and> pose_estimator (\<lparr>pose_estimator_attr = Some 0, visualizer_attr = None\<rparr>, 1)
     = ((\<lparr>pose_estimator_attr = Some 0, visualizer_attr = None\<rparr>, 1), 0)"
  using pose_estimator_once [of 2 "(\<lparr>pose_estimator_attr = None, visualizer_attr = None\<rparr>, 0)"]
  by (simp add: pose_estimator_def numeral_3_eq_3)

subsection \<open>Blending two images\<close>








subsection \<open>Keypoints of one frame\<close>

lemma has_shape3_zeros: "has_shape3 a b c (zeros a b c)"
  by (simp add: has_shape3_def has_shape2_def zeros_def list_all_iff)

lemma concatenate_scores_shape:
  assumes "has_shape3 1 n 2 kps" "has_shape2 1 n scs"
  shows "concatenate_scores kps scs = Inr [map2 (\<lambda>k s. k @ [s]) (hd kps) (hd scs)]
         \<and> has_shape3 1 n 3 [map2 (\<lambda>k s. k @ [s]) (hd kps) (hd scs)]"
proof -
  obtain ks where kps: "kps = [ks]" using assms(1)
    by (cases kps) (auto simp: has_shape3_def)
  obtain ss where scs: "scs = [ss]" using assms(2)
    by (cases scs) (auto simp: has_shape2_def)
  have lk: "length ks = n" "\<forall>k \<in> set ks. length k = 2"
    using assms(1) kps by (auto simp: has_shape3_def has_shape2_def list_all_iff)
  have ls: "length ss = n" using assms(2) scs by (simp add: has_shape2_def)
  have a: "concatenate_scores kps scs = Inr [map2 (\<lambda>k s. k @ [s]) ks ss]"
    using lk ls by (simp add: concatenate_scores_def kps scs)
  have "\<forall>row \<in> set (map2 (\<lambda>k s. k @ [s]) ks ss). length row = 3"
    using lk(2) by (auto dest: set_zip_leftD)
  then have b: "has_shape3 1 n 3 [map2 (\<lambda>k s. k @ [s]) ks ss]"
    using lk ls by (simp add: has_shape3_def has_shape2_def list_all_iff)
  show ?thesis using a b by (simp add: kps scs)
qed

text \<open>
  C2: \<open>get_keypoints_from_frame\<close> gives an array of shape (1, 17, 3) for every image,
  provided the pose model gives 17 keypoints with two coordinates and 17 scores for one
  instance.  The array is all zeros when the detector finds no instance or the score of
  the first detection is below 0.2; otherwise it holds the keypoints of the pose model
  for the first detection, each followed by its score.
\<close>

theorem get_keypoints_from_frame_fixed_size:
  assumes "\<And>d. has_shape3 1 17 2 (keypoints (predict img d))"
    and "\<And>d. has_shape2 1 17 (keypoint_scores (predict img d))"
  shows "\<exists>k. get_keypoints_from_frame detector predict img = Inr k
           \<and> has_shape3 1 17 3 k
           \<and> (detector img = [] \<or> bbox_score (hd (detector img)) < 2 / 10 \<longrightarrow> k = zeros 1 17 3)
           \<and> (detector img \<noteq> [] \<and> \<not> bbox_score (hd (detector img)) < 2 / 10 \<longrightarrow>
                k = [map2 (\<lambda>k s. k @ [s])
                       (hd (keypoints (predict img (hd (detector img)))))
                       (hd (keypoint_scores (predict img (hd (detector img)))))])"
proof (cases "detector img = [] \<or> bbox_score (hd (detector img)) < 2 / 10")
  case True
  then have "get_keypoints_from_frame detector predict img = Inr (zeros 1 17 3)"
    by (auto simp: get_keypoints_from_frame_def Let_def)
  then show ?thesis using True has_shape3_zeros by auto
next
  case False
  let ?p = "predict img (hd (detector img))"
  have "get_keypoints_from_frame detector predict img
          = concatenate_scores (keypoints ?p) (keypoint_scores ?p)"
    using False by (simp add: get_keypoints_from_frame_def Let_def)
  then show ?thesis
    using False concatenate_scores_shape [OF assms(1) [of "hd (detector img)"] assms(2) [of "hd (detector img)"]]
    by simp
qed

theorem get_keypoints_from_frame_fixed_size_witness:
  "has_shape3 1 17 2 [replicate 17 [1, 2 :: rat]] \<and> has_shape2 1 17 [replicate 17 (9 / 10 :: rat)]
   \<and> get_keypoints_from_frame
        (\<lambda>_. [\<lparr>bbox = [0, 0, 10, 20], bbox_score = 1 / 2\<rparr>])
        (\<lambda>_ _. \<lparr>keypoints = [replicate 17 [1, 2]], keypoint_scores = [replicate 17 (9 / 10)]\<rparr>)
        () = Inr [replicate 17 [1, 2, 9 / 10]]
   \<and> has_shape3 1 17 3 [replicate 17 [1, 2, 9 / 10 :: rat]]"
  using get_keypoints_from_frame_fixed_size
    [where predict = "\<lambda>_ _. \<lparr>keypoints = [replicate 17 [1, 2]], keypoint_scores = [replicate 17 (9 / 10)]\<rparr>"
       and img = "()"
       and detector = "\<lambda>_. [\<lparr>bbox = [0, 0, 10, 20], bbox_score = 1 / 2\<rparr>]"]
  by (simp add: get_keypoints_from_frame_def concatenate_scores_def has_shape3_def has_shape2_def list_all_iff)

subsection \<open>Keypoints of a video and their cache\<close>

lemma ebind_Inr: "ebind r f = Inr y \<longleftrightarrow> (\<exists>x. r = Inr x \<and> f x = Inr y)"
  by (cases r) (simp_all add: ebind_def)

lemma VideoReader_Inr:
  "VideoReader w path = Inr (w', r) \<longleftrightarrow>
     (\<exists>v. files w path = Some (VideoFile v) \<and> w' = w\<lparr>trace := trace w @ [OpenVideo path]\<rparr>
          \<and> r = \<lparr>source = v, position = 0\<rparr>)"
  by (auto simp: VideoReader_def split: option.splits file_content.splits)

lemma get_keypoints_from_video_hit:
  "files w (kpts_path video) = Some (KptsFile k) \<Longrightarrow>
   get_keypoints_from_video fk conv w video = Inr (w, k)"
  by (simp add: get_keypoints_from_video_def)

lemma get_keypoints_from_video_hit_only:
  "files w (kpts_path video) = Some f \<Longrightarrow>
   get_keypoints_from_video fk conv w video = Inr (w1, k) \<Longrightarrow> w1 = w \<and> f = KptsFile k"
  by (auto simp: get_keypoints_from_video_def split: file_content.splits)

lemma get_keypoints_from_video_miss:
  assumes "files w (kpts_path video) = None"
    and "get_keypoints_from_video fk conv w video = Inr (w1, k)"
  shows "\<exists>v0. files w video = Some (VideoFile v0) \<and>
           (if fps v0 = 30
            then extract_keypoints fk \<lparr>source = v0, position = 0\<rparr> = Inr k
               \<and> w1 = w\<lparr>files := (files w)(kpts_path video \<mapsto> KptsFile k),
                        trace := trace w @ [OpenVideo video]
                                   @ replicate (length (frames v0)) ExtractFrame\<rparr>
            else (\<exists>v. fst (conv (files w) video) (snd (conv (files w) video)) = Some (VideoFile v)
               \<and> fps v = 30
               \<and> extract_keypoints fk \<lparr>source = v, position = 0\<rparr> = Inr k
               \<and> w1 = w\<lparr>files := (fst (conv (files w) video))(kpts_path video \<mapsto> KptsFile k),
                        trace := trace w @ [OpenVideo video, ConvertFps video,
                                            OpenVideo (snd (conv (files w) video))]
                                   @ replicate (length (frames v)) ExtractFrame\<rparr>))"
  using assms
  apply (simp add: get_keypoints_from_video_def ebind_Inr split_paired_all split_paired_Ex)
  apply (elim exE conjE)
  apply (auto simp: VideoReader_Inr ebind_Inr split: if_splits prod.splits)
  done

lemma get_keypoints_from_video_assert:
  assumes "files w (kpts_path video) = None"
    and "files w video = Some (VideoFile v0)" and "fps v0 \<noteq> 30"
    and "fst (conv (files w) video) (snd (conv (files w) video)) = Some (VideoFile v)"
    and "fps v \<noteq> 30"
  shows "get_keypoints_from_video fk conv w video = Inl AssertionError"
proof -
  obtain fs p where c: "conv (files w) video = (fs, p)" by (cases "conv (files w) video")
  with assms(4) have "fs p = Some (VideoFile v)" by simp
  with assms(1-3,5) c show ?thesis
    by (simp add: get_keypoints_from_video_def ebind_def VideoReader_def)
qed

lemma get_keypoints_from_video_saved:
  assumes "get_keypoints_from_video fk conv w video = Inr (w1, k)"
  shows "files w1 (kpts_path video) = Some (KptsFile k)"
proof (cases "files w (kpts_path video)")
  case None
  from get_keypoints_from_video_miss [OF None assms] show ?thesis
    by (auto split: if_splits)
next
  case (Some f)
  from get_keypoints_from_video_hit_only [OF Some assms] Some show ?thesis by simp
qed

lemma keypoints_list_Inr:
  "keypoints_list fk xs = Inr ks \<longleftrightarrow>
     length ks = length xs \<and> (\<forall>i < length xs. fk (xs ! i) = Inr (ks ! i))"
proof (induction xs arbitrary: ks)
  case Nil
  show ?case by auto
next
  case (Cons x xs)
  show ?case
  proof
    assume "keypoints_list fk (x # xs) = Inr ks"
    then obtain k rest where k: "fk x = Inr k" "keypoints_list fk xs = Inr rest" "ks = k # rest"
      by (auto simp: ebind_Inr)
    from k(2) Cons.IH [of rest]
    have r: "length rest = length xs" "\<forall>i < length xs. fk (xs ! i) = Inr (rest ! i)" by simp_all
    show "length ks = length (x # xs) \<and> (\<forall>i < length (x # xs). fk ((x # xs) ! i) = Inr (ks ! i))"
    proof (intro conjI allI impI)
      show "length ks = length (x # xs)" using k(3) r(1) by simp
      fix i assume "i < length (x # xs)"
      then show "fk ((x # xs) ! i) = Inr (ks ! i)"
        using k r by (cases i) simp_all
    qed
  next
    assume a: "length ks = length (x # xs) \<and> (\<forall>i < length (x # xs). fk ((x # xs) ! i) = Inr (ks ! i))"
    then obtain k rest where ks: "ks = k # rest" by (cases ks) auto
    from a ks have "fk x = Inr k" by auto
    moreover have "keypoints_list fk xs = Inr rest"
    proof -
      have "length rest = length xs" using a ks by simp
      moreover have "\<forall>i < length xs. fk (xs ! i) = Inr (rest ! i)"
      proof (intro allI impI)
        fix i assume "i < length xs"
        then have "Suc i < length (x # xs)" by simp
        with a have "fk ((x # xs) ! Suc i) = Inr (ks ! Suc i)" by blast
        then show "fk (xs ! i) = Inr (rest ! i)" using ks by simp
      qed
      ultimately show ?thesis using Cons.IH [of rest] by simp
    qed
    ultimately show "keypoints_list fk (x # xs) = Inr ks"
      using ks by (simp add: ebind_def)
  qed
qed

lemma extract_keypoints_Inr:
  "extract_keypoints fk r = Inr k \<longleftrightarrow>
     (\<exists>ks. length ks = length (frames (source r))
        \<and> (\<forall>i < length (frames (source r)). fk (frames (source r) ! i) = Inr (ks ! i))
        \<and> frames (source r) \<noteq> [] \<and> k = concat ks)"
proof
  assume "extract_keypoints fk r = Inr k"
  then obtain ks where a: "keypoints_list fk (frames (source r)) = Inr ks"
    and b: "np_concatenate ks = Inr k"
    by (auto simp: extract_keypoints_def ebind_Inr)
  from b have c: "ks \<noteq> []" "k = concat ks"
    by (auto simp: np_concatenate_def split: if_splits)
  from a have d: "length ks = length (frames (source r))"
    "\<forall>i < length (frames (source r)). fk (frames (source r) ! i) = Inr (ks ! i)"
    by (simp_all add: keypoints_list_Inr)
  from c(1) d(1) have "frames (source r) \<noteq> []" by auto
  with c d show "\<exists>ks. length ks = length (frames (source r))
        \<and> (\<forall>i < length (frames (source r)). fk (frames (source r) ! i) = Inr (ks ! i))
        \<and> frames (source r) \<noteq> [] \<and> k = concat ks"
    by blast
next
  assume "\<exists>ks. length ks = length (frames (source r))
        \<and> (\<forall>i < length (frames (source r)). fk (frames (source r) ! i) = Inr (ks ! i))
        \<and> frames (source r) \<noteq> [] \<and> k = concat ks"
  then obtain ks where d: "length ks = length (frames (source r))"
    "\<forall>i < length (frames (source r)). fk (frames (source r) ! i) = Inr (ks ! i)"
    and e: "frames (source r) \<noteq> []" "k = concat ks"
    by blast
  from d have a: "keypoints_list fk (frames (source r)) = Inr ks"
    by (simp add: keypoints_list_Inr)
  from d(1) e(1) have "ks \<noteq> []" by auto
  with e(2) have "np_concatenate ks = Inr k" by (simp add: np_concatenate_def)
  with a show "extract_keypoints fk r = Inr k"
    by (simp add: extract_keypoints_def ebind_def)
qed

lemma get_keypoints_from_video_extracted:
  assumes "files w (kpts_path video) = None"
    and "get_keypoints_from_video fk conv w video = Inr (w1, k)"
  shows "\<exists>v0 v fs ks. files w video = Some (VideoFile v0)
      \<and> (if fps v0 = 30 then v = v0 \<and> fs = files w
          else fs = fst (conv (files w) video)
             \<and> fs (snd (conv (files w) video)) = Some (VideoFile v))
      \<and> fps v = 30
      \<and> length ks = length (frames v)
      \<and> (\<forall>i < length (frames v). fk (frames v ! i) = Inr (ks ! i))
      \<and> frames v \<noteq> [] \<and> k = concat ks
      \<and> files w1 = fs(kpts_path video \<mapsto> KptsFile k)"
proof -
  from get_keypoints_from_video_miss [OF assms] obtain v0 where
    v0: "files w video = Some (VideoFile v0)"
    and r: "if fps v0 = 30
            then extract_keypoints fk \<lparr>source = v0, position = 0\<rparr> = Inr k
               \<and> w1 = w\<lparr>files := (files w)(kpts_path video \<mapsto> KptsFile k),
                        trace := trace w @ [OpenVideo video]
                                   @ replicate (length (frames v0)) ExtractFrame\<rparr>
            else (\<exists>v. fst (conv (files w) video) (snd (conv (files w) video)) = Some (VideoFile v)
               \<and> fps v = 30
               \<and> extract_keypoints fk \<lparr>source = v, position = 0\<rparr> = Inr k
               \<and> w1 = w\<lparr>files := (fst (conv (files w) video))(kpts_path video \<mapsto> KptsFile k),
                        trace := trace w @ [OpenVideo video, ConvertFps video,
                                            OpenVideo (snd (conv (files w) video))]
                                   @ replicate (length (frames v)) ExtractFrame\<rparr>)"
    by blast
  show ?thesis
  proof (cases "fps v0 = 30")
    case True
    with r have e: "extract_keypoints fk \<lparr>source = v0, position = 0\<rparr> = Inr k"
      and w1: "files w1 = (files w)(kpts_path video \<mapsto> KptsFile k)" by simp_all
    from e obtain ks where "length ks = length (frames v0)"
      "\<forall>i < length (frames v0). fk (frames v0 ! i) = Inr (ks ! i)"
      "frames v0 \<noteq> []" "k = concat ks"
      by (auto simp: extract_keypoints_Inr)
    with v0 True w1 show ?thesis
      by (intro exI [of _ v0] exI [of _ "files w"] exI [of _ ks]) simp
  next
    case False
    with r obtain v where
      c: "fst (conv (files w) video) (snd (conv (files w) video)) = Some (VideoFile v)"
      and f: "fps v = 30"
      and e: "extract_keypoints fk \<lparr>source = v, position = 0\<rparr> = Inr k"
      and w1: "files w1 = (fst (conv (files w) video))(kpts_path video \<mapsto> KptsFile k)"
      by auto
    from e obtain ks where "length ks = length (frames v)"
      "\<forall>i < length (frames v). fk (frames v ! i) = Inr (ks ! i)"
      "frames v \<noteq> []" "k = concat ks"
      by (auto simp: extract_keypoints_Inr)
    with v0 False c f w1 show ?thesis
      by (intro exI [of _ v0] exI [of _ v] exI [of _ "fst (conv (files w) video)"] exI [of _ ks]) simp
  qed
qed

text \<open>
  C3: when the keypoint file of a video exists, \<open>get_keypoints_from_video\<close> gives its
  contents and changes nothing: no video is opened and no frame extracted.  When the call
  returns, the file holds the returned array, and a second call on the same path gives
  the same array and changes nothing.  If the file did not exist before, the returned
  array is the concatenation of what the frame extractor gave for every frame, in order,
  of the video at the path (or of its conversion when that video does not report 30
  frames per second), and the files afterwards are the files before (or after the
  conversion) with that array written to the keypoint file.
\<close>

theorem get_keypoints_from_video_cache:
  "(\<forall>k0. files w (kpts_path video) = Some (KptsFile k0) \<longrightarrow>
       get_keypoints_from_video fk conv w video = Inr (w, k0))
   \<and> (\<forall>w1 k. get_keypoints_from_video fk conv w video = Inr (w1, k) \<longrightarrow>
        files w1 (kpts_path video) = Some (KptsFile k)
        \<and> get_keypoints_from_video fk conv w1 video = Inr (w1, k)
        \<and> (files w (kpts_path video) \<noteq> None \<longrightarrow>
             w1 = w \<and> files w (kpts_path video) = Some (KptsFile k))
        \<and> (files w (kpts_path video) = None \<longrightarrow>
             (\<exists>v0 v fs ks. files w video = Some (VideoFile v0)
                \<and> (if fps v0 = 30 then v = v0 \<and> fs = files w
                    else fs = fst (conv (files w) video)
                       \<and> fs (snd (conv (files w) video)) = Some (VideoFile v))
                \<and> fps v = 30
                \<and> length ks = length (frames v)
                \<and> (\<forall>i < length (frames v). fk (frames v ! i) = Inr (ks ! i))
                \<and> frames v \<noteq> [] \<and> k = concat ks
                \<and> files w1 = fs(kpts_path video \<mapsto> KptsFile k))))"
proof (intro conjI allI impI)
  fix k0 assume "files w (kpts_path video) = Some (KptsFile k0)"
  then show "get_keypoints_from_video fk conv w video = Inr (w, k0)"
    by (rule get_keypoints_from_video_hit)
next
  fix w1 k assume r: "get_keypoints_from_video fk conv w video = Inr (w1, k)"
  then show s: "files w1 (kpts_path video) = Some (KptsFile k)"
    by (rule get_keypoints_from_video_saved)
  then show "get_keypoints_from_video fk conv w1 video = Inr (w1, k)"
    by (rule get_keypoints_from_video_hit)
  {
    assume "files w (kpts_path video) \<noteq> None"
    then obtain f where f: "files w (kpts_path video) = Some f" by auto
    from get_keypoints_from_video_hit_only [OF f r] f
    show "w1 = w" and "files w (kpts_path video) = Some (KptsFile k)" by simp_all
  }
  assume "files w (kpts_path video) = None"
  from get_keypoints_from_video_extracted [OF this r]
  show "\<exists>v0 v fs ks. files w video = Some (VideoFile v0)
                \<and> (if fps v0 = 30 then v = v0 \<and> fs = files w
                    else fs = fst (conv (files w) video)
                       \<and> fs (snd (conv (files w) video)) = Some (VideoFile v))
                \<and> fps v = 30
                \<and> length ks = length (frames v)
                \<and> (\<forall>i < length (frames v). fk (frames v ! i) = Inr (ks ! i))
                \<and> frames v \<noteq> [] \<and> k = concat ks
                \<and> files w1 = fs(kpts_path video \<mapsto> KptsFile k)" .
qed

theorem get_keypoints_from_video_cache_witness:
  "\<exists>w1. get_keypoints_from_video (\<lambda>f. Inr [[[of_nat f, 0, 1]]]) (\<lambda>fs p. (fs, p))
           \<lparr>files = [''a.mp4'' \<mapsto> VideoFile \<lparr>fps = 30, frames = [10, 11 :: nat]\<rparr>], trace = []\<rparr>
           ''a.mp4''
         = Inr (w1, [[[10, 0, 1]], [[11, 0, 1]]])
       \<and> trace w1 = [OpenVideo ''a.mp4'', ExtractFrame, ExtractFrame]
       \<and> files w1 ''a_kpts.pth'' = Some (KptsFile [[[10, 0, 1]], [[11, 0, 1]]])
       \<and> get_keypoints_from_video (\<lambda>f. Inr [[[of_nat f, 0, 1]]]) (\<lambda>fs p. (fs, p)) w1 ''a.mp4''
         = Inr (w1, [[[10, 0, 1]], [[11, 0, 1]]])"
proof -
  let ?w = "\<lparr>files = [''a.mp4'' \<mapsto> VideoFile \<lparr>fps = 30, frames = [10, 11 :: nat]\<rparr>], trace = []\<rparr>"
  let ?fk = "\<lambda>f :: nat. Inr [[[of_nat f, 0, 1]]] :: error + kpt_seq"
  let ?conv = "\<lambda>(fs :: string \<rightharpoonup> nat file_content) (p :: string). (fs, p)"
  let ?k = "[[[10, 0, 1]], [[11, 0, 1]]] :: kpt_seq"
  have p: "kpts_path ''a.mp4'' = ''a_kpts.pth''"
    by (simp add: kpts_path_def rsplit_dot_def)
  obtain w1 where
    r: "get_keypoints_from_video ?fk ?conv ?w ''a.mp4'' = Inr (w1, ?k)"
    and t: "trace w1 = [OpenVideo ''a.mp4'', ExtractFrame, ExtractFrame]"
    by (simp add: get_keypoints_from_video_def p VideoReader_def ebind_def
        extract_keypoints_def np_concatenate_def numeral_2_eq_2)
  from get_keypoints_from_video_cache [of ?w "''a.mp4''" ?fk ?conv] r
  have "files w1 (kpts_path ''a.mp4'') = Some (KptsFile ?k)
        \<and> get_keypoints_from_video ?fk ?conv w1 ''a.mp4'' = Inr (w1, ?k)"
    by blast
  with r t p show ?thesis by auto
qed

text \<open>
  C7: with no keypoint file, a call that returns extracted the keypoints from a reader
  of exactly 30 frames per second: the reader of the input video if that reports 30, and
  otherwise the reader of the video that \<open>convert_video_fps\<close> made, after the call of
  \<open>convert_video_fps\<close>.  When the converted video does not report 30 either, the call
  fails with an assertion error.
\<close>

theorem get_keypoints_from_video_30fps:
  assumes "files w (kpts_path video) = None" and "files w video = Some (VideoFile v0)"
  shows "(\<forall>w1 k. get_keypoints_from_video fk conv w video = Inr (w1, k) \<longrightarrow>
            (if fps v0 = 30
             then extract_keypoints fk \<lparr>source = v0, position = 0\<rparr> = Inr k
                \<and> trace w1 = trace w @ [OpenVideo video]
                                @ replicate (length (frames v0)) ExtractFrame
             else (\<exists>v. fst (conv (files w) video) (snd (conv (files w) video)) = Some (VideoFile v)
                \<and> fps v = 30
                \<and> extract_keypoints fk \<lparr>source = v, position = 0\<rparr> = Inr k
                \<and> trace w1 = trace w @ [OpenVideo video, ConvertFps video,
                                         OpenVideo (snd (conv (files w) video))]
                                @ replicate (length (frames v)) ExtractFrame)))
       \<and> (fps v0 \<noteq> 30 \<longrightarrow>
            (\<forall>v. fst (conv (files w) video) (snd (conv (files w) video)) = Some (VideoFile v)
                 \<and> fps v \<noteq> 30 \<longrightarrow>
                 get_keypoints_from_video fk conv w video = Inl AssertionError))"
proof (intro conjI allI impI)
  fix w1 k assume "get_keypoints_from_video fk conv w video = Inr (w1, k)"
  from get_keypoints_from_video_miss [OF assms(1) this] assms(2)
  show "if fps v0 = 30
        then extract_keypoints fk \<lparr>source = v0, position = 0\<rparr> = Inr k
           \<and> trace w1 = trace w @ [OpenVideo video] @ replicate (length (frames v0)) ExtractFrame
        else (\<exists>v. fst (conv (files w) video) (snd (conv (files w) video)) = Some (VideoFile v)
           \<and> fps v = 30
           \<and> extract_keypoints fk \<lparr>source = v, position = 0\<rparr> = Inr k
           \<and> trace w1 = trace w @ [OpenVideo video, ConvertFps video,
                                    OpenVideo (snd (conv (files w) video))]
                           @ replicate (length (frames v)) ExtractFrame)"
    by (auto split: if_splits)
next
  fix v
  assume "fps v0 \<noteq> 30"
    and "fst (conv (files w) video) (snd (conv (files w) video)) = Some (VideoFile v) \<and> fps v \<noteq> 30"
  with assms show "get_keypoints_from_video fk conv w video = Inl AssertionError"
    using get_keypoints_from_video_assert [of w video v0 conv v fk] by blast
qed

theorem get_keypoints_from_video_30fps_witness:
  "files \<lparr>files = [''a.mp4'' \<mapsto> VideoFile \<lparr>fps = 25, frames = [(), ()]\<rparr>], trace = []\<rparr>
     (kpts_path ''a.mp4'') = None
   \<and> (\<exists>w1. get_keypoints_from_video (\<lambda>_. Inr (zeros 1 17 3))
             (\<lambda>fs p. (fs(''a_30.mp4'' \<mapsto> VideoFile \<lparr>fps = 30, frames = [(), (), ()]\<rparr>), ''a_30.mp4''))
             \<lparr>files = [''a.mp4'' \<mapsto> VideoFile \<lparr>fps = 25, frames = [(), ()]\<rparr>], trace = []\<rparr> ''a.mp4''
           = Inr (w1, zeros 3 17 3)
         \<and> trace w1 = [OpenVideo ''a.mp4'', ConvertFps ''a.mp4'', OpenVideo ''a_30.mp4'',
                        ExtractFrame, ExtractFrame, ExtractFrame])
   \<and> get_keypoints_from_video (\<lambda>_. Inr (zeros 1 17 3))
        (\<lambda>fs p. (fs(''a_24.mp4'' \<mapsto> VideoFile \<lparr>fps = 24, frames = [()]\<rparr>), ''a_24.mp4''))
        \<lparr>files = [''a.mp4'' \<mapsto> VideoFile \<lparr>fps = 25, frames = [(), ()]\<rparr>], trace = []\<rparr> ''a.mp4''
      = Inl AssertionError"
proof -
  let ?w = "\<lparr>files = [''a.mp4'' \<mapsto> VideoFile \<lparr>fps = 25, frames = [(), ()]\<rparr>], trace = []\<rparr>
              :: unit world"
  let ?fk = "\<lambda>_ :: unit. Inr (zeros 1 17 3) :: error + kpt_seq"
  let ?conv = "\<lambda>(fs :: string \<rightharpoonup> unit file_content) (p :: string).
                 (fs(''a_30.mp4'' \<mapsto> VideoFile \<lparr>fps = 30, frames = [(), (), ()]\<rparr>), ''a_30.mp4'')"
  let ?bad = "\<lambda>(fs :: string \<rightharpoonup> unit file_content) (p :: string).
                 (fs(''a_24.mp4'' \<mapsto> VideoFile \<lparr>fps = 24, frames = [()]\<rparr>), ''a_24.mp4'')"
  have p: "kpts_path ''a.mp4'' = ''a_kpts.pth''"
    by (simp add: kpts_path_def rsplit_dot_def)
  have h1: "files ?w (kpts_path ''a.mp4'') = None" by (simp add: p)
  have h2: "files ?w ''a.mp4'' = Some (VideoFile \<lparr>fps = 25, frames = [(), ()]\<rparr>)" by simp
  obtain w1 where
    r: "get_keypoints_from_video ?fk ?conv ?w ''a.mp4'' = Inr (w1, zeros 3 17 3)"
    by (simp add: get_keypoints_from_video_def p VideoReader_def ebind_def
        extract_keypoints_def np_concatenate_def zeros_def numeral_2_eq_2 numeral_3_eq_3)
  from get_keypoints_from_video_30fps [OF h1 h2, of ?fk ?conv] r
  have t: "trace w1 = [OpenVideo ''a.mp4'', ConvertFps ''a.mp4'', OpenVideo ''a_30.mp4'',
                        ExtractFrame, ExtractFrame, ExtractFrame]"
    by (auto simp: numeral_3_eq_3)
  from get_keypoints_from_video_30fps [OF h1 h2, of ?fk ?bad]
  have b: "get_keypoints_from_video ?fk ?bad ?w ''a.mp4'' = Inl AssertionError"
    by simp
  from h1 r t b show ?thesis by blast
qed

subsection \<open>The output video\<close>

lemma next_frame_Inr:
  "next_frame r = Inr (r', x) \<longleftrightarrow>
     position r < length (frames (source r)) \<and> r' = r\<lparr>position := Suc (position r)\<rparr>
     \<and> x = frames (source r) ! position r"
  by (auto simp: next_frame_def)

lemma skip_frames_Inr:
  "skip_frames n r = Inr r' \<longleftrightarrow>
     (n = 0 \<or> position r + n \<le> length (frames (source r)))
     \<and> r' = r\<lparr>position := position r + n\<rparr>"
proof (induction n arbitrary: r)
  case 0
  show ?case by auto
next
  case (Suc n)
  show ?case
    by (auto simp: ebind_Inr next_frame_Inr Suc)
qed

lemma getitem_Inr: "getitem xs i = Inr x \<longleftrightarrow> i < length xs \<and> x = xs ! i"
  by (auto simp: getitem_def)

lemma render_frame_Inr:
  assumes "render_frame sm t s info st i = Inr st'"
  shows "\<exists>o1 a1 o2 a2 o3 o4 o5 i1 i2.
      position (tch_video_reader st) < length (frames (source (tch_video_reader st)))
    \<and> position (stu_video_reader st) < length (frames (source (stu_video_reader st)))
    \<and> sm (objects st) s (stu_start info + i) 5 = Inr (o1, a1)
    \<and> sm o1 t (tch_start info + i) 5 = Inr (o2, a2)
    \<and> iadd_last_axis o2 a1 1 (300 - 256) = Inr o3
    \<and> iadd_last_axis o3 a2 0 (256 - 192) = Inr o4
    \<and> iadd_last_axis o4 a2 1 (300 - 256) = Inr o5
    \<and> InstanceData o5 a1 = Inr i1 \<and> InstanceData o5 a2 = Inr i2
    \<and> i < length (similarity info)
    \<and> st' = \<lparr>objects = o5,
          tch_video_reader = (tch_video_reader st)\<lparr>position := Suc (position (tch_video_reader st))\<rparr>,
          stu_video_reader = (stu_video_reader st)\<lparr>position := Suc (position (stu_video_reader st))\<rparr>,
          score = score st + similarity info ! i * 1000,
          last_vis_score = (if score st + similarity info ! i * 1000 - last_vis_score st > 1500
                            then score st + similarity info ! i * 1000 else last_vis_score st),
          video_writer = Some (written st @
            [\<lparr>out_stu_frame = frames (source (stu_video_reader st)) ! position (stu_video_reader st),
              out_tch_frame = frames (source (tch_video_reader st)) ! position (tch_video_reader st),
              out_stu_inst = i1, out_tch_inst = i2,
              out_score_text = py_int (if score st + similarity info ! i * 1000 - last_vis_score st > 1500
                            then score st + similarity info ! i * 1000 else last_vis_score st),
              out_font_size = 30 * max (4 / 10) (similarity info ! i)\<rparr>]),
          calls = calls st @ [Smooth s (stu_start info + i), Smooth t (tch_start info + i)]\<rparr>"
  using assms
  apply (simp add: render_frame_def ebind_Inr split_paired_all split_paired_Ex next_frame_Inr getitem_Inr Let_def)
  apply (elim exE conjE)
  apply auto
  done


lemma render_loop_states:
  "render_loop sm t s info xs st = Inr st' \<Longrightarrow>
   \<exists>sts. length sts = Suc (length xs) \<and> sts ! 0 = st \<and> sts ! length xs = st'
     \<and> (\<forall>j < length xs. render_frame sm t s info (sts ! j) (xs ! j) = Inr (sts ! Suc j))"
proof (induction xs arbitrary: st)
  case Nil
  then show ?case by (intro exI [of _ "[st]"]) simp
next
  case (Cons i rest)
  from Cons.prems obtain st1 where
    step: "render_frame sm t s info st i = Inr st1"
    and loop: "render_loop sm t s info rest st1 = Inr st'"
    by (auto simp: ebind_Inr)
  from Cons.IH [OF loop] obtain sts where
    sts: "length sts = Suc (length rest)" "sts ! 0 = st1" "sts ! length rest = st'"
      "\<forall>j < length rest. render_frame sm t s info (sts ! j) (rest ! j) = Inr (sts ! Suc j)"
    by blast
  have "\<forall>j < length (i # rest).
          render_frame sm t s info ((st # sts) ! j) ((i # rest) ! j) = Inr ((st # sts) ! Suc j)"
  proof (intro allI impI)
    fix j assume "j < length (i # rest)"
    then show "render_frame sm t s info ((st # sts) ! j) ((i # rest) ! j) = Inr ((st # sts) ! Suc j)"
      using step sts by (cases j) simp_all
  qed
  then show ?case
    using sts by (intro exI [of _ "st # sts"]) simp
qed

lemma chain_readers:
  assumes "\<forall>j < n. render_frame sm t s info (sts ! j) j = Inr (sts ! Suc j)" and "j \<le> n"
  shows "tch_video_reader (sts ! j) = (tch_video_reader (sts ! 0))\<lparr>position := position (tch_video_reader (sts ! 0)) + j\<rparr>
       \<and> stu_video_reader (sts ! j) = (stu_video_reader (sts ! 0))\<lparr>position := position (stu_video_reader (sts ! 0)) + j\<rparr>
       \<and> (0 < j \<longrightarrow> position (tch_video_reader (sts ! 0)) + j \<le> length (frames (source (tch_video_reader (sts ! 0))))
                   \<and> position (stu_video_reader (sts ! 0)) + j \<le> length (frames (source (stu_video_reader (sts ! 0)))))"
  using assms(2)
proof (induction j)
  case 0
  show ?case by simp
next
  case (Suc j)
  then have j: "j < n" by simp
  from assms(1) j have "render_frame sm t s info (sts ! j) j = Inr (sts ! Suc j)" by simp
  from render_frame_Inr [OF this] Suc.IH j show ?case
    by (auto simp: Suc_le_eq)
qed

lemma chain_score:
  assumes "\<forall>j < n. render_frame sm t s info (sts ! j) j = Inr (sts ! Suc j)" and "j \<le> n"
  shows "j \<le> length (similarity info)
       \<and> score (sts ! j) = score (sts ! 0) + 1000 * sum_list (take j (similarity info))"
  using assms(2)
proof (induction j)
  case 0
  show ?case by simp
next
  case (Suc j)
  then have j: "j < n" by simp
  from assms(1) j have "render_frame sm t s info (sts ! j) j = Inr (sts ! Suc j)" by simp
  from render_frame_Inr [OF this] obtain x where
    x: "j < length (similarity info)" "score (sts ! Suc j) = score (sts ! j) + similarity info ! j * 1000"
    by auto
  with Suc.IH j show ?case
    by (simp add: take_Suc_conv_app_nth algebra_simps)
qed

lemma chain_written:
  assumes "\<forall>j < n. render_frame sm t s info (sts ! j) j = Inr (sts ! Suc j)" and "j \<le> n"
  shows "written (sts ! j) = written (sts ! 0) @ map (\<lambda>k. last (written (sts ! Suc k))) [0..<j]"
  using assms(2)
proof (induction j)
  case 0
  show ?case by simp
next
  case (Suc j)
  then have j: "j < n" by simp
  from assms(1) j have "render_frame sm t s info (sts ! j) j = Inr (sts ! Suc j)" by simp
  from render_frame_Inr [OF this] obtain out where
    "written (sts ! Suc j) = written (sts ! j) @ [out]"
    by (auto simp: written_def)
  with Suc.IH j show ?case by simp
qed

lemma step_last_vis:
  assumes "render_frame sm t s info st i = Inr st'"
  shows "last_vis_score st' = (if score st' - last_vis_score st > 1500 then score st' else last_vis_score st)"
    and "last_vis_score st \<le> last_vis_score st'"
    and "out_score_text (last (written st')) = py_int (last_vis_score st')"
    and "out_tch_frame (last (written st')) = frames (source (tch_video_reader st)) ! position (tch_video_reader st)"
    and "out_stu_frame (last (written st')) = frames (source (stu_video_reader st)) ! position (stu_video_reader st)"
  using render_frame_Inr [OF assms] by (auto simp: written_def)

lemma py_int_mono: "x \<le> y \<Longrightarrow> py_int x \<le> py_int y"
proof -
  assume xy: "x \<le> y"
  show ?thesis
  proof (cases "0 \<le> x")
    case True
    with xy show ?thesis by (simp add: py_int_def floor_mono)
  next
    case False
    show ?thesis
    proof (cases "0 \<le> y")
      case True
      have "\<lceil>x\<rceil> \<le> 0" using False by (simp add: ceiling_le_iff)
      moreover have "0 \<le> \<lfloor>y\<rfloor>" using True by simp
      ultimately have "\<lceil>x\<rceil> \<le> \<lfloor>y\<rfloor>" by (rule order_trans)
      then show ?thesis using False True by (simp only: py_int_def if_True if_False)
    next
      case y: False
      with False xy show ?thesis by (simp add: py_int_def ceiling_mono)
    qed
  qed
qed

lemma chain_last_vis_mono:
  assumes "\<forall>j < n. render_frame sm t s info (sts ! j) j = Inr (sts ! Suc j)" and "k \<le> n" and "i \<le> k"
  shows "last_vis_score (sts ! i) \<le> last_vis_score (sts ! k)"
  using assms(3,2)
proof (induction k rule: dec_induct)
  case base
  show ?case by simp
next
  case (step k)
  then have "k < n" by simp
  with assms(1) have "render_frame sm t s info (sts ! k) k = Inr (sts ! Suc k)" by simp
  from step_last_vis(2) [OF this] step show ?case by simp
qed


lemma generate_output_video_locals_Inr:
  assumes "generate_output_video_locals sm w tv sv objs t s info = Inr (w', st)"
  shows "\<exists>vt vs sts. files w tv = Some (VideoFile vt) \<and> files w sv = Some (VideoFile vs)
      \<and> w' = w\<lparr>trace := trace w @ [OpenVideo tv, OpenVideo sv]\<rparr>
      \<and> length sts = Suc (length_piece info)
      \<and> sts ! 0 = \<lparr>objects = objs,
                    tch_video_reader = \<lparr>source = vt, position = tch_start info\<rparr>,
                    stu_video_reader = \<lparr>source = vs, position = stu_start info\<rparr>,
                    score = 0, last_vis_score = 0, video_writer = None, calls = []\<rparr>
      \<and> sts ! length_piece info = st
      \<and> (\<forall>j < length_piece info. render_frame sm t s info (sts ! j) j = Inr (sts ! Suc j))"
proof -
  from assms obtain vt vs st0 where
    f: "files w tv = Some (VideoFile vt)" "files w sv = Some (VideoFile vs)"
    and w': "w' = w\<lparr>trace := trace w @ [OpenVideo tv, OpenVideo sv]\<rparr>"
    and st0: "st0 = \<lparr>objects = objs,
                    tch_video_reader = \<lparr>source = vt, position = tch_start info\<rparr>,
                    stu_video_reader = \<lparr>source = vs, position = stu_start info\<rparr>,
                    score = 0, last_vis_score = 0, video_writer = None, calls = []\<rparr>"
    and loop: "render_loop sm t s info [0..<length_piece info] st0 = Inr st"
    apply (simp add: generate_output_video_locals_def ebind_Inr split_paired_all split_paired_Ex
        VideoReader_Inr skip_frames_Inr)
    apply (elim exE conjE)
    apply auto
    done
  from render_loop_states [OF loop] obtain sts where
    "length sts = Suc (length_piece info)" "sts ! 0 = st0" "sts ! length_piece info = st"
    "\<forall>j < length_piece info. render_frame sm t s info (sts ! j) ([0..<length_piece info] ! j) = Inr (sts ! Suc j)"
    by auto
  with f w' st0 show ?thesis
    by (intro exI [of _ vt] exI [of _ vs] exI [of _ sts]) simp
qed

text \<open>
  C5: when \<open>generate_output_video\<close> has run through its loop, the teacher reader stands
  at \<open>tch_start + length\<close> and the student reader at \<open>stu_start + length\<close>, and the
  frames that went into the output are, in order, the \<open>length\<close> frames after the first
  \<open>tch_start\<close> of the teacher video and the \<open>length\<close> frames after the first
  \<open>stu_start\<close> of the student video.
\<close>

theorem generate_output_video_frame_ranges:
  assumes "generate_output_video_locals sm w tv sv objs t s info = Inr (w', st)"
  shows "\<exists>vt vs. files w tv = Some (VideoFile vt) \<and> files w sv = Some (VideoFile vs)
      \<and> tch_video_reader st = \<lparr>source = vt, position = tch_start info + length_piece info\<rparr>
      \<and> stu_video_reader st = \<lparr>source = vs, position = stu_start info + length_piece info\<rparr>
      \<and> length (written st) = length_piece info
      \<and> map out_tch_frame (written st) = take (length_piece info) (drop (tch_start info) (frames vt))
      \<and> map out_stu_frame (written st) = take (length_piece info) (drop (stu_start info) (frames vs))
      \<and> (0 < length_piece info \<longrightarrow>
            tch_start info + length_piece info \<le> length (frames vt)
          \<and> stu_start info + length_piece info \<le> length (frames vs))"
proof -
  let ?n = "length_piece info"
  from generate_output_video_locals_Inr [OF assms] obtain vt vs sts where
    f: "files w tv = Some (VideoFile vt)" "files w sv = Some (VideoFile vs)"
    and s0: "sts ! 0 = \<lparr>objects = objs,
                    tch_video_reader = \<lparr>source = vt, position = tch_start info\<rparr>,
                    stu_video_reader = \<lparr>source = vs, position = stu_start info\<rparr>,
                    score = 0, last_vis_score = 0, video_writer = None, calls = []\<rparr>"
    and sn: "sts ! ?n = st"
    and ch: "\<forall>j < ?n. render_frame sm t s info (sts ! j) j = Inr (sts ! Suc j)"
    by blast
  have rd: "tch_video_reader (sts ! j) = \<lparr>source = vt, position = tch_start info + j\<rparr>
          \<and> stu_video_reader (sts ! j) = \<lparr>source = vs, position = stu_start info + j\<rparr>
          \<and> (0 < j \<longrightarrow> tch_start info + j \<le> length (frames vt) \<and> stu_start info + j \<le> length (frames vs))"
    if "j \<le> ?n" for j
    using chain_readers [OF ch that] s0 by simp
  have wr: "written st = map (\<lambda>k. last (written (sts ! Suc k))) [0..<?n]"
    using chain_written [OF ch order_refl] s0 sn by (simp add: written_def)
  have bound: "tch_start info + ?n \<le> length (frames vt) \<and> stu_start info + ?n \<le> length (frames vs)"
    if "0 < ?n"
    using rd [OF order_refl] that by simp
  have t: "map out_tch_frame (written st) = take ?n (drop (tch_start info) (frames vt))"
  proof (rule nth_equalityI)
    show "length (map out_tch_frame (written st)) = length (take ?n (drop (tch_start info) (frames vt)))"
      using wr bound by (cases "?n = 0") auto
  next
    fix k assume "k < length (map out_tch_frame (written st))"
    then have k: "k < ?n" using wr by simp
    with ch have "render_frame sm t s info (sts ! k) k = Inr (sts ! Suc k)" by simp
    from step_last_vis(4) [OF this] rd [of k] k bound
    show "map out_tch_frame (written st) ! k = take ?n (drop (tch_start info) (frames vt)) ! k"
      by (simp add: wr)
  qed
  have u: "map out_stu_frame (written st) = take ?n (drop (stu_start info) (frames vs))"
  proof (rule nth_equalityI)
    show "length (map out_stu_frame (written st)) = length (take ?n (drop (stu_start info) (frames vs)))"
      using wr bound by (cases "?n = 0") auto
  next
    fix k assume "k < length (map out_stu_frame (written st))"
    then have k: "k < ?n" using wr by simp
    with ch have "render_frame sm t s info (sts ! k) k = Inr (sts ! Suc k)" by simp
    from step_last_vis(5) [OF this] rd [of k] k bound
    show "map out_stu_frame (written st) ! k = take ?n (drop (stu_start info) (frames vs)) ! k"
      by (simp add: wr)
  qed
  have "length (written st) = ?n" using wr by simp
  with f rd [OF order_refl] sn t u bound show ?thesis by simp
qed

text \<open>
  C9: along the states of the loop, the running score after frame \<open>i\<close> is 1000 times the
  sum of the similarity values 0 to \<open>i\<close>; the value behind the drawn score becomes the
  running score when that exceeds it by more than 1500 and stays as it was otherwise;
  the drawn score is its integer part and never decreases from a frame to a later one.
\<close>

theorem generate_output_video_score:
  assumes "generate_output_video_locals sm w tv sv objs t s info = Inr (w', st)"
  shows "\<exists>sts. length sts = Suc (length_piece info) \<and> sts ! length_piece info = st
      \<and> score (sts ! 0) = 0 \<and> last_vis_score (sts ! 0) = 0
      \<and> (\<forall>i < length_piece info.
            render_frame sm t s info (sts ! i) i = Inr (sts ! Suc i)
          \<and> score (sts ! Suc i) = 1000 * sum_list (take (Suc i) (similarity info))
          \<and> last_vis_score (sts ! Suc i)
              = (if score (sts ! Suc i) - last_vis_score (sts ! i) > 1500
                 then score (sts ! Suc i) else last_vis_score (sts ! i))
          \<and> out_score_text (written st ! i) = py_int (last_vis_score (sts ! Suc i)))
      \<and> (\<forall>i j. i \<le> j \<and> j < length_piece info \<longrightarrow>
            out_score_text (written st ! i) \<le> out_score_text (written st ! j))"
proof -
  let ?n = "length_piece info"
  from generate_output_video_locals_Inr [OF assms] obtain vt vs sts where
    len: "length sts = Suc ?n"
    and s0: "sts ! 0 = \<lparr>objects = objs,
                    tch_video_reader = \<lparr>source = vt, position = tch_start info\<rparr>,
                    stu_video_reader = \<lparr>source = vs, position = stu_start info\<rparr>,
                    score = 0, last_vis_score = 0, video_writer = None, calls = []\<rparr>"
    and sn: "sts ! ?n = st"
    and ch: "\<forall>j < ?n. render_frame sm t s info (sts ! j) j = Inr (sts ! Suc j)"
    by blast
  have wr: "written st = map (\<lambda>k. last (written (sts ! Suc k))) [0..<?n]"
    using chain_written [OF ch order_refl] s0 sn by (simp add: written_def)
  have shown: "out_score_text (written st ! i) = py_int (last_vis_score (sts ! Suc i))"
    if "i < ?n" for i
  proof -
    from ch that have "render_frame sm t s info (sts ! i) i = Inr (sts ! Suc i)" by simp
    from step_last_vis(3) [OF this] that show ?thesis by (simp add: wr)
  qed
  have frame: "render_frame sm t s info (sts ! i) i = Inr (sts ! Suc i)
          \<and> score (sts ! Suc i) = 1000 * sum_list (take (Suc i) (similarity info))
          \<and> last_vis_score (sts ! Suc i)
              = (if score (sts ! Suc i) - last_vis_score (sts ! i) > 1500
                 then score (sts ! Suc i) else last_vis_score (sts ! i))
          \<and> out_score_text (written st ! i) = py_int (last_vis_score (sts ! Suc i))"
    if "i < ?n" for i
  proof -
    from ch that have r: "render_frame sm t s info (sts ! i) i = Inr (sts ! Suc i)" by simp
    from that have "Suc i \<le> ?n" by simp
    from chain_score [OF ch this] s0
    have "score (sts ! Suc i) = 1000 * sum_list (take (Suc i) (similarity info))" by simp
    with r step_last_vis(1) [OF r] shown [OF that] show ?thesis by simp
  qed
  have mono: "out_score_text (written st ! i) \<le> out_score_text (written st ! j)"
    if "i \<le> j \<and> j < ?n" for i j
  proof -
    from that have "Suc j \<le> ?n" "Suc i \<le> Suc j" "i < ?n" "j < ?n" by simp_all
    from chain_last_vis_mono [OF ch this(1,2)] shown [OF this(3)] shown [OF this(4)]
    show ?thesis by (simp add: py_int_mono)
  qed
  from len sn s0 frame mono show ?thesis
    by (intro exI [of _ sts]) simp
qed

lemmas gen_eval = generate_output_video_locals_def VideoReader_def ebind_def
        render_frame_def next_frame_def get_smoothed_kpt_def iadd_last_axis_def rows_of_def
        map_rows_def InstanceData_def getitem_def written_def py_int_def Let_def
        numeral_2_eq_2

theorem generate_output_video_frame_ranges_witness:
  "\<exists>w' st. generate_output_video_locals (get_smoothed_kpt (\<lambda>raw i n. raw ! i))
        \<lparr>files = [''t.mp4'' \<mapsto> VideoFile \<lparr>fps = 30, frames = [10, 11, 12, 13 :: nat]\<rparr>,
                  ''s.mp4'' \<mapsto> VideoFile \<lparr>fps = 30, frames = [20, 21, 22]\<rparr>],
         trace = []\<rparr>
        ''t.mp4'' ''s.mp4''
        [Seq [[[0, 0, 1]], [[1, 1, 1]], [[2, 2, 1]], [[3, 3, 1]]],
         Seq [[[5, 5, 1]], [[6, 6, 1]], [[7, 7, 1]]]] 0 1
        \<lparr>tch_start = 2, stu_start = 1, length_piece = 2, similarity = [9 / 10, 8 / 10]\<rparr>
      = Inr (w', st)
    \<and> map out_tch_frame (written st) = [12, 13]
    \<and> map out_stu_frame (written st) = [21, 22]
    \<and> position (tch_video_reader st) = 4
    \<and> position (stu_video_reader st) = 3"
proof -
  let ?w = "\<lparr>files = [''t.mp4'' \<mapsto> VideoFile \<lparr>fps = 30, frames = [10, 11, 12, 13 :: nat]\<rparr>,
                  ''s.mp4'' \<mapsto> VideoFile \<lparr>fps = 30, frames = [20, 21, 22]\<rparr>],
         trace = []\<rparr>"
  let ?objs = "[Seq [[[0, 0, 1]], [[1, 1, 1]], [[2, 2, 1]], [[3, 3, 1]]],
         Seq [[[5, 5, 1]], [[6, 6, 1]], [[7, 7, 1]]]]"
  let ?info = "\<lparr>tch_start = 2, stu_start = 1, length_piece = 2, similarity = [9 / 10, 8 / 10]\<rparr>"
  obtain w' st where
    r: "generate_output_video_locals (get_smoothed_kpt (\<lambda>raw i n. raw ! i)) ?w ''t.mp4'' ''s.mp4''
          ?objs 0 1 ?info = Inr (w', st)"
    by (simp add: gen_eval)
  from generate_output_video_frame_ranges [OF r]
  have "map out_tch_frame (written st) = [12, 13] \<and> map out_stu_frame (written st) = [21, 22]
      \<and> position (tch_video_reader st) = 4 \<and> position (stu_video_reader st) = 3"
    by (auto simp: numeral_2_eq_2)
  with r show ?thesis by (intro exI [of _ w'] exI [of _ st]) simp
qed


theorem generate_output_video_score_witness:
  "\<exists>w' st. generate_output_video_locals (get_smoothed_kpt (\<lambda>raw i n. raw ! i))
        \<lparr>files = [''t.mp4'' \<mapsto> VideoFile \<lparr>fps = 30, frames = [10, 11, 12, 13 :: nat]\<rparr>,
                  ''s.mp4'' \<mapsto> VideoFile \<lparr>fps = 30, frames = [20, 21, 22]\<rparr>],
         trace = []\<rparr>
        ''t.mp4'' ''s.mp4''
        [Seq [[[0, 0, 1]], [[1, 1, 1]], [[2, 2, 1]], [[3, 3, 1]]],
         Seq [[[5, 5, 1]], [[6, 6, 1]], [[7, 7, 1]]]] 0 1
        \<lparr>tch_start = 2, stu_start = 1, length_piece = 2, similarity = [9 / 10, 8 / 10]\<rparr>
      = Inr (w', st)
    \<and> score st = 1700
    \<and> out_score_text (written st ! 0) = 0
    \<and> out_score_text (written st ! 1) = 1700"
proof -
  let ?w = "\<lparr>files = [''t.mp4'' \<mapsto> VideoFile \<lparr>fps = 30, frames = [10, 11, 12, 13 :: nat]\<rparr>,
                  ''s.mp4'' \<mapsto> VideoFile \<lparr>fps = 30, frames = [20, 21, 22]\<rparr>],
         trace = []\<rparr>"
  let ?objs = "[Seq [[[0, 0, 1]], [[1, 1, 1]], [[2, 2, 1]], [[3, 3, 1]]],
         Seq [[[5, 5, 1]], [[6, 6, 1]], [[7, 7, 1]]]]"
  let ?info = "\<lparr>tch_start = 2, stu_start = 1, length_piece = 2, similarity = [9 / 10, 8 / 10]\<rparr>"
  obtain w' st where
    r: "generate_output_video_locals (get_smoothed_kpt (\<lambda>raw i n. raw ! i)) ?w ''t.mp4'' ''s.mp4''
          ?objs 0 1 ?info = Inr (w', st)"
    by (simp add: gen_eval)
  from generate_output_video_score [OF r] obtain sts where
    st: "sts ! length_piece ?info = st"
    and z: "score (sts ! 0) = 0" "last_vis_score (sts ! 0) = 0"
    and fr: "\<forall>i < length_piece ?info.
          score (sts ! Suc i) = 1000 * sum_list (take (Suc i) (similarity ?info))
          \<and> last_vis_score (sts ! Suc i)
              = (if score (sts ! Suc i) - last_vis_score (sts ! i) > 1500
                 then score (sts ! Suc i) else last_vis_score (sts ! i))
          \<and> out_score_text (written st ! i) = py_int (last_vis_score (sts ! Suc i))"
    by blast
  from fr have f0: "score (sts ! Suc 0) = 900" "last_vis_score (sts ! Suc 0) = 0"
      "out_score_text (written st ! 0) = 0"
    using z by (simp_all add: py_int_def)
  from fr have "score (sts ! Suc (Suc 0)) = 1000 * sum_list (take (Suc (Suc 0)) (similarity ?info))
          \<and> last_vis_score (sts ! Suc (Suc 0))
              = (if score (sts ! Suc (Suc 0)) - last_vis_score (sts ! Suc 0) > 1500
                 then score (sts ! Suc (Suc 0)) else last_vis_score (sts ! Suc 0))
          \<and> out_score_text (written st ! Suc 0) = py_int (last_vis_score (sts ! Suc (Suc 0)))"
    by simp
  with f0 have f1: "score (sts ! Suc (Suc 0)) = 1700" "out_score_text (written st ! Suc 0) = 1700"
    by (simp_all add: py_int_def)
  from st have "st = sts ! Suc (Suc 0)" by (simp add: numeral_2_eq_2)
  with r f0 f1 show ?thesis by (intro exI [of _ w'] exI [of _ st]) simp
qed

lemma smoothed_then_shifted:
  assumes "get_smoothed_kpt smooth objs s i 5 = Inr (o1, a1)"
    and "get_smoothed_kpt smooth o1 t j 5 = Inr (o2, a2)"
    and "iadd_last_axis o2 a1 1 c3 = Inr o3"
    and "iadd_last_axis o3 a2 0 c4 = Inr o4"
    and "iadd_last_axis o4 a2 1 c5 = Inr o5"
  shows "length objs \<le> length o5 \<and> take (length objs) o5 = objs"
proof -
  from assms(1) obtain f1 where o1: "o1 = objs @ [f1]" "a1 = length objs"
    by (auto simp: get_smoothed_kpt_def split: if_splits ndarray.splits)
  from assms(2) obtain f2 where o2: "o2 = o1 @ [f2]" "a2 = length o1"
    by (auto simp: get_smoothed_kpt_def split: if_splits ndarray.splits)
  from assms(3) obtain x3 where o3: "o3 = o2[a1 := x3]"
    by (auto simp: iadd_last_axis_def split: if_splits)
  from assms(4) obtain x4 where o4: "o4 = o3[a2 := x4]"
    by (auto simp: iadd_last_axis_def split: if_splits)
  from assms(5) obtain x5 where o5: "o5 = o4[a2 := x5]"
    by (auto simp: iadd_last_axis_def split: if_splits)
  show ?thesis
    by (simp add: o5 o4 o3 o2 o1)
qed

lemma step_objects_kept:
  assumes "render_frame (get_smoothed_kpt smooth) t s info st i = Inr st'"
  shows "length (objects st) \<le> length (objects st')
       \<and> take (length (objects st)) (objects st') = objects st"
  using render_frame_Inr [OF assms]
  apply (elim exE conjE)
  apply (drule (4) smoothed_then_shifted)
  apply simp
  done

lemma chain_objects_kept:
  assumes "\<forall>j < n. render_frame (get_smoothed_kpt smooth) t s info (sts ! j) j = Inr (sts ! Suc j)"
    and "j \<le> n"
  shows "length (objects (sts ! 0)) \<le> length (objects (sts ! j))
       \<and> take (length (objects (sts ! 0))) (objects (sts ! j)) = objects (sts ! 0)"
  using assms(2)
proof (induction j)
  case 0
  show ?case by simp
next
  case (Suc j)
  then have j: "j < n" by simp
  let ?a = "length (objects (sts ! 0))" and ?b = "length (objects (sts ! j))"
  from assms(1) j
  have "render_frame (get_smoothed_kpt smooth) t s info (sts ! j) j = Inr (sts ! Suc j)" by simp
  from step_objects_kept [OF this]
  have s: "?b \<le> length (objects (sts ! Suc j))" "take ?b (objects (sts ! Suc j)) = objects (sts ! j)"
    by simp_all
  from Suc.IH j have i: "?a \<le> ?b" "take ?a (objects (sts ! j)) = objects (sts ! 0)"
    by simp_all
  have "take ?a (objects (sts ! Suc j)) = take ?a (take ?b (objects (sts ! Suc j)))"
    using i(1) by (simp add: min_def)
  also have "\<dots> = objects (sts ! 0)" using s(2) i(2) by simp
  finally show ?case using s(1) i(1) by simp
qed

text \<open>
  C6: with the smoother giving a new array for every frame, every array that existed
  before the call of \<open>generate_output_video\<close>, the two keypoint sequences among them, is
  the same after the call: the shifts for drawing are written to the new arrays only.
\<close>

theorem generate_output_video_keeps_arrays:
  assumes "generate_output_video (get_smoothed_kpt smooth) w tv sv output_file objs t s info
             = Inr (w', objs', path)"
  shows "length objs \<le> length objs' \<and> take (length objs) objs' = objs
       \<and> (\<forall>a < length objs. objs' ! a = objs ! a)"
proof -
  from assms obtain w2 st where
    l: "generate_output_video_locals (get_smoothed_kpt smooth) w tv sv objs t s info = Inr (w2, st)"
    and o: "objs' = objects st"
    by (auto simp: generate_output_video_def ebind_Inr)
  from generate_output_video_locals_Inr [OF l] obtain vt vs sts where
    s0: "sts ! 0 = \<lparr>objects = objs,
                    tch_video_reader = \<lparr>source = vt, position = tch_start info\<rparr>,
                    stu_video_reader = \<lparr>source = vs, position = stu_start info\<rparr>,
                    score = 0, last_vis_score = 0, video_writer = None, calls = []\<rparr>"
    and sn: "sts ! length_piece info = st"
    and ch: "\<forall>j < length_piece info.
               render_frame (get_smoothed_kpt smooth) t s info (sts ! j) j = Inr (sts ! Suc j)"
    by blast
  from chain_objects_kept [OF ch order_refl] s0 sn o
  have k: "length objs \<le> length objs'" "take (length objs) objs' = objs" by simp_all
  have "objs' ! a = objs ! a" if "a < length objs" for a
  proof -
    from that have "take (length objs) objs' ! a = objs' ! a" by (rule nth_take)
    with k(2) show ?thesis by simp
  qed
  with k show ?thesis by simp
qed


theorem generate_output_video_keeps_arrays_witness:
  "\<exists>w' objs'. generate_output_video (get_smoothed_kpt (\<lambda>raw i n. raw ! i))
        \<lparr>files = [''t.mp4'' \<mapsto> VideoFile \<lparr>fps = 30, frames = [10, 11, 12, 13 :: nat]\<rparr>,
                  ''s.mp4'' \<mapsto> VideoFile \<lparr>fps = 30, frames = [20, 21, 22]\<rparr>],
         trace = []\<rparr>
        ''t.mp4'' ''s.mp4'' ''out.mp4''
        [Seq [[[0, 0, 1]], [[1, 1, 1]], [[2, 2, 1]], [[3, 3, 1]]],
         Seq [[[5, 5, 1]], [[6, 6, 1]], [[7, 7, 1]]]] 0 1
        \<lparr>tch_start = 2, stu_start = 1, length_piece = 2, similarity = [9 / 10, 8 / 10]\<rparr>
      = Inr (w', objs', ''out.mp4'')
    \<and> objs' ! 0 = Seq [[[0, 0, 1]], [[1, 1, 1]], [[2, 2, 1]], [[3, 3, 1]]]
    \<and> objs' ! 1 = Seq [[[5, 5, 1]], [[6, 6, 1]], [[7, 7, 1]]]
    \<and> objs' ! 2 = Frame [[6, 50, 1]]
    \<and> objs' ! 3 = Frame [[66, 46, 1]]"
proof -
  let ?w = "\<lparr>files = [''t.mp4'' \<mapsto> VideoFile \<lparr>fps = 30, frames = [10, 11, 12, 13 :: nat]\<rparr>,
                  ''s.mp4'' \<mapsto> VideoFile \<lparr>fps = 30, frames = [20, 21, 22]\<rparr>],
         trace = []\<rparr>"
  let ?objs = "[Seq [[[0, 0, 1]], [[1, 1, 1]], [[2, 2, 1]], [[3, 3, 1]]],
         Seq [[[5, 5, 1]], [[6, 6, 1]], [[7, 7, 1]]]]"
  let ?info = "\<lparr>tch_start = 2, stu_start = 1, length_piece = 2, similarity = [9 / 10, 8 / 10]\<rparr>"
  obtain w' objs' where
    r: "generate_output_video (get_smoothed_kpt (\<lambda>raw i n. raw ! i)) ?w ''t.mp4'' ''s.mp4''
          ''out.mp4'' ?objs 0 1 ?info = Inr (w', objs', ''out.mp4'')"
    and n: "objs' ! 2 = Frame [[6, 50, 1]]" "objs' ! 3 = Frame [[66, 46, 1]]"
    by (simp add: generate_output_video_def generate_output_video_locals_def VideoReader_def ebind_def
        render_frame_def next_frame_def get_smoothed_kpt_def iadd_last_axis_def rows_of_def
        map_rows_def InstanceData_def getitem_def written_def py_int_def Let_def
        numeral_2_eq_2 numeral_3_eq_3)
  from generate_output_video_keeps_arrays [OF r]
  have "objs' ! 0 = ?objs ! 0 \<and> objs' ! 1 = ?objs ! 1" by simp
  with r n show ?thesis by (intro exI [of _ w'] exI [of _ objs']) simp
qed

lemma get_keypoints_from_video_trace:
  assumes "get_keypoints_from_video fk conv w video = Inr (w1, k)"
  shows "\<exists>es. trace w1 = trace w @ es \<and> (\<forall>a i. Smooth a i \<notin> set es)"
proof (cases "files w (kpts_path video)")
  case None
  from get_keypoints_from_video_miss [OF None assms] show ?thesis
    by (auto split: if_splits)
next
  case (Some f)
  from get_keypoints_from_video_hit_only [OF Some assms] show ?thesis by simp
qed

lemma chain_calls:
  assumes "\<forall>j < n. render_frame sm t s info (sts ! j) j = Inr (sts ! Suc j)" and "j \<le> n"
  shows "calls (sts ! j) = calls (sts ! 0)
           @ concat (map (\<lambda>k. [Smooth s (stu_start info + k), Smooth t (tch_start info + k)]) [0..<j])"
  using assms(2)
proof (induction j)
  case 0
  show ?case by simp
next
  case (Suc j)
  then have j: "j < n" by simp
  from assms(1) j have "render_frame sm t s info (sts ! j) j = Inr (sts ! Suc j)" by simp
  from render_frame_Inr [OF this]
  have "calls (sts ! Suc j) = calls (sts ! j) @ [Smooth s (stu_start info + j), Smooth t (tch_start info + j)]"
    by (elim exE conjE) simp
  with Suc.IH j show ?case by simp
qed

lemma generate_output_video_trace:
  assumes "generate_output_video sm w tv sv output_file objs t s info = Inr (w', objs', path)"
  shows "trace w' = trace w @ [OpenVideo tv, OpenVideo sv]
           @ concat (map (\<lambda>k. [Smooth s (stu_start info + k), Smooth t (tch_start info + k)])
                       [0..<length_piece info])"
proof -
  from assms obtain w2 st where
    l: "generate_output_video_locals sm w tv sv objs t s info = Inr (w2, st)"
    and o: "trace w' = trace w2 @ calls st"
    by (auto simp: generate_output_video_def ebind_Inr)
  from generate_output_video_locals_Inr [OF l] obtain vt vs sts where
    w2: "w2 = w\<lparr>trace := trace w @ [OpenVideo tv, OpenVideo sv]\<rparr>"
    and s0: "sts ! 0 = \<lparr>objects = objs,
                    tch_video_reader = \<lparr>source = vt, position = tch_start info\<rparr>,
                    stu_video_reader = \<lparr>source = vs, position = stu_start info\<rparr>,
                    score = 0, last_vis_score = 0, video_writer = None, calls = []\<rparr>"
    and sn: "sts ! length_piece info = st"
    and ch: "\<forall>j < length_piece info. render_frame sm t s info (sts ! j) j = Inr (sts ! Suc j)"
    by blast
  from chain_calls [OF ch order_refl] s0 sn o w2 show ?thesis by simp
qed

text \<open>
  C4: in a run that returns, the similarity is computed from the two keypoint sequences as
  \<open>get_keypoints_from_video\<close> gave them, the piece is selected from that similarity, and
  every call of the smoother comes after both, whatever the smoother does.
\<close>

theorem run_similarity_before_smoothing:
  assumes "run fk conv calc sel sm tmpdir w tv sv = Inr (w', objs', path)"
  shows "\<exists>w1 tch_kpts w2 stu_kpts m info pre.
           get_keypoints_from_video fk conv w tv = Inr (w1, tch_kpts)
         \<and> get_keypoints_from_video fk conv w1 sv = Inr (w2, stu_kpts)
         \<and> calc tch_kpts stu_kpts = Inr m \<and> sel m = Inr info
         \<and> (\<forall>a i. Smooth a i \<notin> set pre)
         \<and> trace w' = trace w @ pre
             @ [CalcSimilarity tch_kpts stu_kpts, SelectPiece info, OpenVideo tv, OpenVideo sv]
             @ concat (map (\<lambda>k. [Smooth 1 (stu_start info + k), Smooth 0 (tch_start info + k)])
                         [0..<length_piece info])"
proof -
  from assms obtain w1 tk w2 sk m info where
    g: "get_keypoints_from_video fk conv w tv = Inr (w1, tk)"
       "get_keypoints_from_video fk conv w1 sv = Inr (w2, sk)"
    and c: "calc tk sk = Inr m" "sel m = Inr info"
    and gen: "generate_output_video sm
               (w2\<lparr>trace := trace w2 @ [CalcSimilarity tk sk, SelectPiece info]\<rparr>) tv sv
               (tmpdir @ ''/'' @ rsplit_dot (basename tv) @ ''-'' @ rsplit_dot (basename sv) @ ''.mp4'')
               [Seq tk, Seq sk] 0 1 info = Inr (w', objs', path)"
    apply (simp add: run_def ebind_Inr split_paired_all split_paired_Ex Let_def)
    apply (elim exE conjE)
    apply blast
    done
  from get_keypoints_from_video_trace [OF g(1)] obtain e1 where
    e1: "trace w1 = trace w @ e1" "\<forall>a i. Smooth a i \<notin> set e1" by blast
  from get_keypoints_from_video_trace [OF g(2)] obtain e2 where
    e2: "trace w2 = trace w1 @ e2" "\<forall>a i. Smooth a i \<notin> set e2" by blast
  from generate_output_video_trace [OF gen] e1(1) e2(1)
  have t: "trace w' = trace w @ (e1 @ e2)
             @ [CalcSimilarity tk sk, SelectPiece info, OpenVideo tv, OpenVideo sv]
             @ concat (map (\<lambda>k. [Smooth 1 (stu_start info + k), Smooth 0 (tch_start info + k)])
                         [0..<length_piece info])"
    by simp
  have "\<forall>a i. Smooth a i \<notin> set (e1 @ e2)" using e1(2) e2(2) by simp
  with g c t show ?thesis by blast
qed


theorem run_similarity_before_smoothing_witness:
  "\<exists>w' objs'. run (\<lambda>f. Inr [[[of_nat f, 0, 1]]]) (\<lambda>fs p. (fs, p))
        (\<lambda>t s. Inr (length t, length s))
        (\<lambda>m. Inr \<lparr>tch_start = 0, stu_start = 1, length_piece = 1, similarity = [1 / 2]\<rparr>)
        (get_smoothed_kpt (\<lambda>raw i n. raw ! i)) ''/tmp/x''
        \<lparr>files = [''t.mp4'' \<mapsto> VideoFile \<lparr>fps = 30, frames = [10, 11 :: nat]\<rparr>,
                  ''s.mp4'' \<mapsto> VideoFile \<lparr>fps = 30, frames = [20, 21]\<rparr>],
         trace = []\<rparr>
        ''t.mp4'' ''s.mp4''
      = Inr (w', objs', ''/tmp/x/t-s.mp4'')
    \<and> trace w' = [OpenVideo ''t.mp4'', ExtractFrame, ExtractFrame,
                   OpenVideo ''s.mp4'', ExtractFrame, ExtractFrame,
                   CalcSimilarity [[[10, 0, 1]], [[11, 0, 1]]] [[[20, 0, 1]], [[21, 0, 1]]],
                   SelectPiece \<lparr>tch_start = 0, stu_start = 1, length_piece = 1, similarity = [1 / 2]\<rparr>,
                   OpenVideo ''t.mp4'', OpenVideo ''s.mp4'', Smooth 1 1, Smooth 0 0]"
proof -
  have p: "kpts_path ''t.mp4'' = ''t_kpts.pth''" "kpts_path ''s.mp4'' = ''s_kpts.pth''"
    "rsplit_dot (basename ''t.mp4'') = ''t''" "rsplit_dot (basename ''s.mp4'') = ''s''"
    by (simp_all add: kpts_path_def rsplit_dot_def basename_def)
  obtain w' objs' where
    r: "run (\<lambda>f. Inr [[[of_nat f, 0, 1]]]) (\<lambda>fs p. (fs, p))
        (\<lambda>t s. Inr (length t, length s))
        (\<lambda>m. Inr \<lparr>tch_start = 0, stu_start = 1, length_piece = 1, similarity = [1 / 2]\<rparr>)
        (get_smoothed_kpt (\<lambda>raw i n. raw ! i)) ''/tmp/x''
        \<lparr>files = [''t.mp4'' \<mapsto> VideoFile \<lparr>fps = 30, frames = [10, 11 :: nat]\<rparr>,
                  ''s.mp4'' \<mapsto> VideoFile \<lparr>fps = 30, frames = [20, 21]\<rparr>],
         trace = []\<rparr>
        ''t.mp4'' ''s.mp4''
      = Inr (w', objs', ''/tmp/x/t-s.mp4'')"
    and t: "trace w' = [OpenVideo ''t.mp4'', ExtractFrame, ExtractFrame,
                   OpenVideo ''s.mp4'', ExtractFrame, ExtractFrame,
                   CalcSimilarity [[[10, 0, 1]], [[11, 0, 1]]] [[[20, 0, 1]], [[21, 0, 1]]],
                   SelectPiece \<lparr>tch_start = 0, stu_start = 1, length_piece = 1, similarity = [1 / 2]\<rparr>,
                   OpenVideo ''t.mp4'', OpenVideo ''s.mp4'', Smooth 1 1, Smooth 0 0]"
    by (simp add: run_def get_keypoints_from_video_def p extract_keypoints_def np_concatenate_def
        generate_output_video_def generate_output_video_locals_def VideoReader_def ebind_def
        render_frame_def next_frame_def get_smoothed_kpt_def iadd_last_axis_def rows_of_def
        map_rows_def InstanceData_def getitem_def written_def py_int_def Let_def
        numeral_2_eq_2)
  from run_similarity_before_smoothing [OF r] r t show ?thesis
    by (intro exI [of _ w'] exI [of _ objs']) simp
qed

subsection \<open>The alignment selector on identical sequences\<close>










end
